theory Spec2Isabelle
  imports Complex_Main "HOL-Library.Product_Lexorder" "HOL-Library.Multiset" "HOL-Library.Log_Nat"
begin

section \<open>Python values and exceptions\<close>

text \<open>
  Exceptions of the Python runtime that the modelled functions can raise. A function that
  can raise returns \<open>error + 'a\<close>, with \<open>Inl\<close> for the exception.
\<close>

datatype error = TypeError | ValueError | IndexError | KeyError

text \<open>\<open>str.upper()\<close> and \<open>str.lower()\<close> on ASCII text.\<close>

definition upper_char :: "char \<Rightarrow> char" where
  "upper_char c =
     (let k = (of_char c :: nat) in if 97 \<le> k \<and> k \<le> 122 then char_of (k - 32) else c)"

definition upper :: "string \<Rightarrow> string" where
  "upper s = map upper_char s"

definition lower_char :: "char \<Rightarrow> char" where
  "lower_char c =
     (let k = (of_char c :: nat) in if 65 \<le> k \<and> k \<le> 90 then char_of (k + 32) else c)"

definition lower :: "string \<Rightarrow> string" where
  "lower s = map lower_char s"

text \<open>\<open>d[k]\<close> on a dict literal, written as an association list: a missing key raises.\<close>

definition dict_get :: "('k \<times> 'v) list \<Rightarrow> 'k \<Rightarrow> error + 'v" where
  "dict_get d k = (case map_of d k of None \<Rightarrow> Inl KeyError | Some v \<Rightarrow> Inr v)"

section \<open>Python numbers\<close>

text \<open>
  A number of the source is a Python int or a Python float, that is an IEEE 754 binary64
  number. Both are modelled as the rational number they denote, and an arithmetic operation
  as the exact operation followed by the rounding that the hardware and the runtime perform:
  \<open>fl\<close> rounds a rational to the nearest binary64 number, a tie to the one with an even
  significand. The significand has 53 bits, so a number with \<open>2^e \<le> |q| < 2^(e+1)\<close>
  is rounded to a multiple of \<open>2^(e-52)\<close>, and to a multiple of \<open>2^-1074\<close> in the
  subnormal range. An int below \<open>2^53\<close> is a float exactly, so on such ints, where
  Python computes exactly, the rounding changes nothing. Overflow to infinity (beyond
  \<open>2^1024\<close>), infinities and NaN are outside the model.
\<close>

text \<open>\<open>int(x)\<close> on a number: truncation towards zero.\<close>

definition py_int :: "rat \<Rightarrow> int" where
  "py_int x = (if 0 \<le> x then \<lfloor>x\<rfloor> else \<lceil>x\<rceil>)"

text \<open>\<open>round(x)\<close> on a number: to the nearest integer, a tie to the even one.\<close>

definition py_round :: "rat \<Rightarrow> int" where
  "py_round x =
     (let f = \<lfloor>x\<rfloor>; d = x - of_int f
      in if d < 1 / 2 then f else if 1 / 2 < d then f + 1 else if even f then f else f + 1)"

definition pow2 :: "int \<Rightarrow> rat" where
  "pow2 k = (if 0 \<le> k then 2 ^ nat k else 1 / 2 ^ nat (- k))"

text \<open>The binary exponent of a non-zero rational: the \<open>e\<close> with \<open>2^e \<le> |q| < 2^(e+1)\<close>.\<close>

definition ilog2 :: "rat \<Rightarrow> int" where
  "ilog2 q =
     (let k = bitlen (fst (quotient_of \<bar>q\<bar>)) - bitlen (snd (quotient_of \<bar>q\<bar>))
      in if pow2 k \<le> \<bar>q\<bar> then k else k - 1)"

definition fl :: "rat \<Rightarrow> rat" where
  "fl q =
     (if q = 0 then 0
      else (let u = pow2 (max (ilog2 q - 52) (- 1074))
            in of_int (py_round (q / u)) * u))"

text \<open>\<open>x + y\<close> for two numbers.\<close>

definition float_add :: "rat \<Rightarrow> rat \<Rightarrow> rat" where
  "float_add x y = fl (x + y)"

text \<open>
  \<open>x * n\<close> and \<open>x / n\<close> for a number \<open>x\<close> and an int \<open>n\<close>: the int is converted to
  a float first.
\<close>

definition float_mul_int :: "rat \<Rightarrow> int \<Rightarrow> rat" where
  "float_mul_int x n = fl (x * fl (of_int n))"

definition float_truediv_int :: "rat \<Rightarrow> int \<Rightarrow> rat" where
  "float_truediv_int x n = fl (x / fl (of_int n))"

text \<open>\<open>i * x\<close> for an int \<open>i\<close> and a float \<open>x\<close>.\<close>

definition int_mul_float :: "int \<Rightarrow> rat \<Rightarrow> rat" where
  "int_mul_float i x = fl (fl (of_int i) * x)"

text \<open>
  \<open>round(x, ndigits)\<close> on a float, for \<open>ndigits \<ge> 0\<close>: the runtime converts the exact
  value of \<open>x\<close> to the decimal with \<open>ndigits\<close> digits after the point, correctly
  rounded with a tie to even, and reads that decimal back as the nearest float.
\<close>

definition round_ndigits :: "rat \<Rightarrow> nat \<Rightarrow> rat" where
  "round_ndigits x ndigits = fl (of_int (py_round (x * 10 ^ ndigits)) / 10 ^ ndigits)"

section \<open>modular\_chord\_generator.py: chord symbols to pitches\<close>

definition PITCH_MAP :: "(string \<times> int) list" where
  "PITCH_MAP =
     [(''C'', 0), (''C#'', 1), (''Db'', 1), (''D'', 2), (''D#'', 3), (''Eb'', 3), (''E'', 4),
      (''F'', 5), (''F#'', 6), (''Gb'', 6), (''G'', 7), (''G#'', 8), (''Ab'', 8), (''A'', 9),
      (''A#'', 10), (''Bb'', 10), (''B'', 11)]"

definition CHORD_VOICINGS :: "(string \<times> int list) list" where
  "CHORD_VOICINGS =
     [(''maj'', [0, 4, 7]),
      (''min'', [0, 3, 7]),
      (''dim'', [0, 3, 6]),
      (''aug'', [0, 4, 8]),
      (''maj(aug)'', [0, 4, 8]),
      (''sus2'', [0, 2, 7]),
      (''sus4'', [0, 5, 7]),
      (''maj7'', [0, 4, 7, 11]),
      (''dom7'', [0, 4, 7, 10]),
      (''min7'', [0, 3, 7, 10]),
      (''dim7'', [0, 3, 6, 9]),
      (''m7b5'', [0, 3, 6, 10]),
      (''min(maj7)'', [0, 3, 7, 11]),
      (''add9'', [0, 4, 7, 14]),
      (''min(add9)'', [0, 3, 7, 14]),
      (''maj9'', [0, 4, 7, 11, 14]),
      (''min9'', [0, 3, 7, 10, 14]),
      (''dom9'', [0, 4, 7, 10, 14]),
      (''dom13'', [0, 4, 7, 10, 14, 21]),
      (''maj13'', [0, 4, 7, 11, 14, 21]),
      (''min11'', [0, 3, 7, 10, 14, 17]),
      (''dom7#9'', [0, 4, 7, 10, 15]),
      (''dom7b9'', [0, 4, 7, 10, 13]),
      (''maj7#11'', [0, 4, 7, 11, 18]),
      (''min13'', [0, 3, 7, 10, 14, 21])]"

text \<open>
  Step 1 of \<open>get_chord_pitches\<close>: the root is two characters when the second one is
  \<open>#\<close> or \<open>b\<close>, one character otherwise; \<open>chord_symbol[0]\<close> on the empty string raises
  IndexError.
\<close>

definition parse_root :: "string \<Rightarrow> error + (string \<times> string)" where
  "parse_root chord_symbol =
     (if length chord_symbol > 1 \<and> (chord_symbol ! 1 = CHR ''#'' \<or> chord_symbol ! 1 = CHR ''b'')
      then Inr (take 2 chord_symbol, drop 2 chord_symbol)
      else (case chord_symbol of
              [] \<Rightarrow> Inl IndexError
            | c # quality_str \<Rightarrow> Inr ([c], quality_str)))"

text \<open>
  Step 2: \<open>for length in range(len(quality_str), 0, -1)\<close>, the first prefix that is a key
  of \<open>CHORD_VOICINGS\<close>; \<open>None\<close> when the loop ends without a match.
\<close>

fun find_quality :: "string \<Rightarrow> nat \<Rightarrow> string option" where
  "find_quality quality_str 0 = None"
| "find_quality quality_str (Suc n) =
     (if map_of CHORD_VOICINGS (take (Suc n) quality_str) \<noteq> None
      then Some (take (Suc n) quality_str)
      else find_quality quality_str n)"

text \<open>
  Step 4: \<open>for i in range(inversion)\<close>, stop on an empty list, else pop the first pitch
  and append it an octave higher.
\<close>

fun apply_inversions :: "nat \<Rightarrow> int list \<Rightarrow> int list" where
  "apply_inversions 0 pitches = pitches"
| "apply_inversions (Suc n) [] = []"
| "apply_inversions (Suc n) (bass_note # pitches) = apply_inversions n (pitches @ [bass_note + 12])"

text \<open>
  \<open>get_chord_pitches(chord_symbol, base_octave, octave_offset, inversion)\<close>. The warning
  printed when no quality matches is not part of the returned value; \<open>range(inversion)\<close>
  is empty for a negative \<open>inversion\<close>, which \<open>nat\<close> gives.
\<close>

definition get_chord_pitches :: "string \<Rightarrow> int \<Rightarrow> int \<Rightarrow> int \<Rightarrow> error + int list" where
  "get_chord_pitches chord_symbol base_octave octave_offset inversion =
     (case parse_root chord_symbol of
        Inl e \<Rightarrow> Inl e
      | Inr (root_name, quality_str) \<Rightarrow>
          (case map_of PITCH_MAP root_name of
             None \<Rightarrow> Inl ValueError
           | Some root_val \<Rightarrow>
               (let quality = (case find_quality quality_str (length quality_str) of
                                 None \<Rightarrow> ''maj''
                               | Some q \<Rightarrow> q)
                in case dict_get CHORD_VOICINGS quality of
                     Inl e \<Rightarrow> Inl e
                   | Inr intervals \<Rightarrow>
                       (let root_pitch = root_val + (base_octave + octave_offset) * 12;
                            pitches = map (\<lambda>i. root_pitch + i) intervals
                        in Inr (apply_inversions (nat inversion) pitches)))))"

section \<open>generative\_music\_creator.py: scale notes\<close>

definition SCALES :: "(string \<times> int list) list" where
  "SCALES =
     [(''major'', [0, 2, 4, 5, 7, 9, 11]),
      (''minor_natural'', [0, 2, 3, 5, 7, 8, 10]),
      (''minor_harmonic'', [0, 2, 3, 5, 7, 8, 11]),
      (''pentatonic_major'', [0, 2, 4, 7, 9]),
      (''blues'', [0, 3, 5, 6, 7, 10])]"

text \<open>
  \<open>get_scale_notes(root_note_name, scale_type, octave_range)\<close>: the two nested loops
  append \<open>root_midi + octave * 12 + interval\<close> for every octave of
  \<open>range(octave_range[0], octave_range[1] + 1)\<close> and every interval, and the result is
  \<open>sorted(list(set(scale_notes)))\<close>.
\<close>

definition get_scale_notes :: "string \<Rightarrow> string \<Rightarrow> int \<times> int \<Rightarrow> error + int list" where
  "get_scale_notes root_note_name scale_type octave_range =
     (case dict_get PITCH_MAP (upper root_note_name) of
        Inl e \<Rightarrow> Inl e
      | Inr root_midi \<Rightarrow>
          (case dict_get SCALES scale_type of
             Inl e \<Rightarrow> Inl e
           | Inr intervals \<Rightarrow>
               (let scale_notes =
                      concat (map (\<lambda>octave. map (\<lambda>interval. root_midi + octave * 12 + interval) intervals)
                                  [fst octave_range .. snd octave_range])
                in Inr (sort (remdups scale_notes)))))"

text \<open>
  The same function as the specification words it: pitches outside \<open>[0, 127]\<close> are
  discarded before deduplication and sorting.
\<close>

definition scaleNotes_spec :: "string \<Rightarrow> string \<Rightarrow> int \<times> int \<Rightarrow> error + int list" where
  "scaleNotes_spec root_note_name scale_type octave_range =
     (case dict_get PITCH_MAP (upper root_note_name) of
        Inl e \<Rightarrow> Inl e
      | Inr root_midi \<Rightarrow>
          (case dict_get SCALES scale_type of
             Inl e \<Rightarrow> Inl e
           | Inr intervals \<Rightarrow>
               (let scale_notes =
                      concat (map (\<lambda>octave. map (\<lambda>interval. root_midi + octave * 12 + interval) intervals)
                                  [fst octave_range .. snd octave_range])
                in Inr (sort (remdups (filter (\<lambda>p. 0 \<le> p \<and> p \<le> 127) scale_notes))))))"

section \<open>music\_elements.py: notes, chords and rests\<close>

text \<open>Beat times and durations are Python numbers, pitches and velocities ints.\<close>

record Note =
  pitch :: int
  start_time :: rat
  duration :: rat
  velocity :: int

text \<open>\<open>Note.__init__\<close>: the four range checks, in the source's order.\<close>

definition Note_init :: "int \<Rightarrow> rat \<Rightarrow> rat \<Rightarrow> int \<Rightarrow> error + Note" where
  "Note_init p s d v =
     (if \<not> (0 \<le> p \<and> p \<le> 127) then Inl ValueError
      else if \<not> (0 \<le> v \<and> v \<le> 127) then Inl ValueError
      else if d \<le> 0 then Inl ValueError
      else if s < 0 then Inl ValueError
      else Inr \<lparr>pitch = p, start_time = s, duration = d, velocity = v\<rparr>)"

text \<open>What the constructor guarantees of every note it returns.\<close>

definition valid_note :: "Note \<Rightarrow> bool" where
  "valid_note n \<longleftrightarrow>
     0 \<le> pitch n \<and> pitch n \<le> 127 \<and> 0 \<le> velocity n \<and> velocity n \<le> 127 \<and>
     0 < duration n \<and> 0 \<le> start_time n"

record Chord =
  chord_notes :: "Note list"

text \<open>
  \<open>Chord.__init__\<close>: the notes sorted by pitch (\<open>sorted\<close> is stable); no notes, or
  \<open>None\<close>, gives the empty chord.
\<close>

definition Chord_init :: "Note list \<Rightarrow> Chord" where
  "Chord_init ns = \<lparr>chord_notes = sort_key pitch ns\<rparr>"

text \<open>The properties \<open>Chord.start_time\<close> and \<open>Chord.duration\<close>: \<open>None\<close> without notes.\<close>

definition Chord_start_time :: "Chord \<Rightarrow> rat option" where
  "Chord_start_time c = (case chord_notes c of [] \<Rightarrow> None | n # _ \<Rightarrow> Some (start_time n))"

definition Chord_duration :: "Chord \<Rightarrow> rat option" where
  "Chord_duration c = (case chord_notes c of [] \<Rightarrow> None | n # _ \<Rightarrow> Some (duration n))"

record Rest =
  rest_start_time :: rat
  rest_duration :: rat

definition Rest_init :: "rat \<Rightarrow> rat \<Rightarrow> error + Rest" where
  "Rest_init s d =
     (if d \<le> 0 then Inl ValueError
      else if s < 0 then Inl ValueError
      else Inr \<lparr>rest_start_time = s, rest_duration = d\<rparr>)"

text \<open>An element of a track is a Note, a Chord or a Rest.\<close>

datatype element = ENote Note | EChord Chord | ERest Rest

text \<open>The attribute \<open>x.start_time\<close> of an element, as the sort key and the exporter read it.\<close>

fun element_start_time :: "element \<Rightarrow> rat option" where
  "element_start_time (ENote n) = Some (start_time n)"
| "element_start_time (EChord c) = Chord_start_time c"
| "element_start_time (ERest r) = Some (rest_start_time r)"

text \<open>What the constructors guarantee of an element.\<close>

fun valid_element :: "element \<Rightarrow> bool" where
  "valid_element (ENote n) = valid_note n"
| "valid_element (EChord c) = list_all valid_note (chord_notes c)"
| "valid_element (ERest r) = (0 < rest_duration r \<and> 0 \<le> rest_start_time r)"

section \<open>track.py\<close>

record Track =
  name :: string
  instrument_program :: int
  channel :: int
  elements :: "element list"
  pan :: int
  volume :: int

definition Track_init :: "string \<Rightarrow> int \<Rightarrow> int \<Rightarrow> int \<Rightarrow> int \<Rightarrow> error + Track" where
  "Track_init nm prog ch pn vol =
     (if \<not> (0 \<le> prog \<and> prog \<le> 127) then Inl ValueError
      else if \<not> (0 \<le> ch \<and> ch \<le> 15) then Inl ValueError
      else if \<not> (0 \<le> pn \<and> pn \<le> 127) then Inl ValueError
      else if \<not> (0 \<le> vol \<and> vol \<le> 127) then Inl ValueError
      else Inr \<lparr>name = nm, instrument_program = prog, channel = ch, elements = [],
                pan = pn, volume = vol\<rparr>)"

text \<open>
  \<open>list.sort(key=f)\<close> of the Python runtime, for keys that are numbers or \<open>None\<close>. A list
  of fewer than two items is left as it is without any comparison. Otherwise every item
  takes part in at least one comparison \<open>a < b\<close> of keys, which raises TypeError as soon as
  one side is \<open>None\<close>; when all keys are numbers the sort is the stable ascending one.
\<close>

definition list_sort_key :: "('a \<Rightarrow> 'k::linorder option) \<Rightarrow> 'a list \<Rightarrow> error + 'a list" where
  "list_sort_key f xs =
     (if length xs < 2 then Inr xs
      else if list_ex (\<lambda>x. f x = None) xs then Inl TypeError
      else Inr (sort_key (\<lambda>x. the (f x)) xs))"

text \<open>
  \<open>Track.add_element\<close>: append, then sort the whole list by \<open>start_time\<close>. The
  \<open>isinstance\<close> check is the type \<open>element\<close>. The append comes before the sort and
  nothing undoes it, so when the sort raises, the element stays in the list: the result is
  then the exception together with the track as the failed call leaves it. The language
  does not fix the order of a list whose sort has failed; the model keeps the order before
  the sort, which is what the runtime leaves when the failing comparison is met before any
  item has moved, as it is for every track built by calls of \<open>add_element\<close> alone.
\<close>

definition add_element :: "Track \<Rightarrow> element \<Rightarrow> (error \<times> Track) + Track" where
  "add_element t element =
     (let appended = elements t @ [element]
      in case list_sort_key element_start_time appended of
           Inl e \<Rightarrow> Inl (e, t\<lparr>elements := appended\<rparr>)
         | Inr es \<Rightarrow> Inr (t\<lparr>elements := es\<rparr>))"

text \<open>
  \<open>Track.add_notes\<close>: \<open>add_element\<close> for each note in turn; an exception ends the loop
  and leaves the track as it is at that point.
\<close>

fun add_notes :: "Track \<Rightarrow> Note list \<Rightarrow> (error \<times> Track) + Track" where
  "add_notes t [] = Inr t"
| "add_notes t (n # ns) =
     (case add_element t (ENote n) of Inl e \<Rightarrow> Inl e | Inr t' \<Rightarrow> add_notes t' ns)"

text \<open>
  A sequence of \<open>add_element\<close> calls, one for each element in turn, as the callers make
  them; the first exception ends it.
\<close>

fun add_elements :: "Track \<Rightarrow> element list \<Rightarrow> (error \<times> Track) + Track" where
  "add_elements t [] = Inr t"
| "add_elements t (element # rest) =
     (case add_element t element of Inl e \<Rightarrow> Inl e | Inr t' \<Rightarrow> add_elements t' rest)"

section \<open>composition.py\<close>

record Composition =
  title :: string
  tracks :: "Track list"
  tempo :: int
  time_signature :: "int \<times> int"

definition Composition_init :: "string \<Rightarrow> int \<Rightarrow> int \<times> int \<Rightarrow> error + Composition" where
  "Composition_init ttl tmp ts =
     (if tmp \<le> 0 then Inl ValueError
      else if \<not> (0 < fst ts \<and> 0 < snd ts) then Inl ValueError
      else Inr \<lparr>title = ttl, tracks = [], tempo = tmp, time_signature = ts\<rparr>)"

text \<open>\<open>Composition.add_track\<close>: a channel already in use only prints a warning.\<close>

definition add_track :: "Composition \<Rightarrow> Track \<Rightarrow> Composition" where
  "add_track c t = c\<lparr>tracks := tracks c @ [t]\<rparr>"

section \<open>midi\_exporter.py\<close>

record MidiExporter =
  ticks_per_beat :: int

text \<open>
  The messages of the mido library that the exporter builds, as data. \<open>SetTempo\<close> holds
  the beats per minute handed to \<open>mido.bpm2tempo\<close>. A message is paired with its
  \<open>time\<close> attribute: the absolute tick while events are collected, the delta time once
  it is appended to the track.
\<close>

datatype message =
    TrackName string
  | SetTempo int
  | TimeSignature int int int int
  | ProgramChange int int
  | ControlChange int int int
  | NoteOn int int int
  | NoteOff int int int
  | EndOfTrack

text \<open>
  The body of \<open>for element in track_obj.elements\<close>. \<open>start_ticks\<close> is computed from
  \<open>element.start_time\<close> before the element's class is looked at, so a \<open>None\<close> there
  raises TypeError (\<open>None * int\<close>). The branch of a Chord whose start or duration is
  \<open>None\<close> prints a warning and continues with no event.
\<close>

definition element_events :: "int \<Rightarrow> int \<Rightarrow> element \<Rightarrow> error + (int \<times> message) list" where
  "element_events tpb ch element =
     (case element_start_time element of
        None \<Rightarrow> Inl TypeError
      | Some st \<Rightarrow>
          (let start_ticks = py_int (float_mul_int st tpb)
           in case element of
                ENote n \<Rightarrow>
                  (let end_ticks =
                         py_int (float_mul_int (float_add (start_time n) (duration n)) tpb)
                   in Inr [(start_ticks, NoteOn (pitch n) (velocity n) ch),
                           (end_ticks, NoteOff (pitch n) 0 ch)])
              | EChord c \<Rightarrow>
                  (case (Chord_start_time c, Chord_duration c) of
                     (Some chord_start_time, Some chord_duration) \<Rightarrow>
                       (let chord_start_ticks = py_int (float_mul_int chord_start_time tpb);
                            chord_end_ticks =
                              py_int (float_mul_int (float_add chord_start_time chord_duration) tpb)
                        in Inr (concat (map (\<lambda>note_in_chord.
                                  [(chord_start_ticks,
                                    NoteOn (pitch note_in_chord) (velocity note_in_chord) ch),
                                   (chord_end_ticks, NoteOff (pitch note_in_chord) 0 ch)])
                                (chord_notes c))))
                   | _ \<Rightarrow> Inr [])
              | ERest r \<Rightarrow> Inr []))"

text \<open>The loop over the elements: the events in order, or the first exception.\<close>

fun collect_events :: "int \<Rightarrow> int \<Rightarrow> element list \<Rightarrow> error + (int \<times> message) list" where
  "collect_events tpb ch [] = Inr []"
| "collect_events tpb ch (element # rest) =
     (case element_events tpb ch element of
        Inl e \<Rightarrow> Inl e
      | Inr evs \<Rightarrow>
          (case collect_events tpb ch rest of
             Inl e \<Rightarrow> Inl e
           | Inr more_evs \<Rightarrow> Inr (evs @ more_evs)))"

text \<open>The sort key \<open>(x[0], 0 if x[1].type == 'note_off' else 1)\<close>.\<close>

fun is_note_off :: "message \<Rightarrow> bool" where
  "is_note_off (NoteOff _ _ _) = True"
| "is_note_off _ = False"

fun is_note_on :: "message \<Rightarrow> bool" where
  "is_note_on (NoteOn _ _ _) = True"
| "is_note_on _ = False"

definition event_key :: "int \<times> message \<Rightarrow> int \<times> int" where
  "event_key x = (fst x, if is_note_off (snd x) then 0 else 1)"

text \<open>The events of one track after \<open>events.sort\<close>, with their absolute ticks.\<close>

definition scheduled_events :: "MidiExporter \<Rightarrow> Track \<Rightarrow> error + (int \<times> message) list" where
  "scheduled_events ex t =
     (case collect_events (ticks_per_beat ex) (channel t) (elements t) of
        Inl e \<Rightarrow> Inl e
      | Inr events \<Rightarrow> Inr (sort_key event_key events))"

text \<open>
  The conversion loop: \<open>delta_ticks = abs_time - last_tick_time\<close>, starting from
  \<open>last_tick_time = 0\<close>.
\<close>

fun to_delta :: "int \<Rightarrow> (int \<times> message) list \<Rightarrow> (int \<times> message) list" where
  "to_delta last_tick_time [] = []"
| "to_delta last_tick_time ((abs_time, msg) # rest) =
     (abs_time - last_tick_time, msg) # to_delta abs_time rest"

text \<open>The note messages of one track as they are appended to the mido track.\<close>

definition emitted_events :: "MidiExporter \<Rightarrow> Track \<Rightarrow> error + (int \<times> message) list" where
  "emitted_events ex t =
     (case scheduled_events ex t of
        Inl e \<Rightarrow> Inl e
      | Inr events \<Rightarrow> Inr (to_delta 0 events))"

text \<open>One pass of \<open>for track_obj in composition.tracks\<close>: the finished mido track.\<close>

definition export_track :: "MidiExporter \<Rightarrow> Track \<Rightarrow> error + (int \<times> message) list" where
  "export_track ex t =
     (case emitted_events ex t of
        Inl e \<Rightarrow> Inl e
      | Inr evs \<Rightarrow>
          Inr ([(0, TrackName (name t)),
                (0, ProgramChange (instrument_program t) (channel t)),
                (0, ControlChange 10 (pan t) (channel t)),
                (0, ControlChange 7 (volume t) (channel t))]
               @ evs
               @ [(if evs = [] then 1 else 0, EndOfTrack)]))"

fun export_tracks :: "MidiExporter \<Rightarrow> Track list \<Rightarrow> error + (int \<times> message) list list" where
  "export_tracks ex [] = Inr []"
| "export_tracks ex (t # ts) =
     (case export_track ex t of
        Inl e \<Rightarrow> Inl e
      | Inr mt \<Rightarrow>
          (case export_tracks ex ts of
             Inl e \<Rightarrow> Inl e
           | Inr mts \<Rightarrow> Inr (mt # mts)))"

record MidiFile =
  file_ticks_per_beat :: int
  file_type :: int
  file_tracks :: "(int \<times> message) list list"

definition build_midi_file :: "MidiExporter \<Rightarrow> Composition \<Rightarrow> error + MidiFile" where
  "build_midi_file ex c =
     (let meta_track =
            [(0, TrackName (title c)),
             (0, SetTempo (tempo c)),
             (0, TimeSignature (fst (time_signature c)) (snd (time_signature c)) 24 8)]
      in case export_tracks ex (tracks c) of
           Inl e \<Rightarrow> Inl e
         | Inr mts \<Rightarrow>
             Inr \<lparr>file_ticks_per_beat = ticks_per_beat ex, file_type = 1,
                  file_tracks = meta_track # mts\<rparr>)"

text \<open>What \<open>export\<close> prints.\<close>

datatype printed =
    Warning_appending_mid string
  | MIDI_file_saved_to string
  | Error_saving_MIDI_file string

text \<open>
  \<open>MidiExporter.export\<close>. Writing the file is the library's \<open>midi_file.save\<close>; it is the
  parameter \<open>save\<close>, which returns \<open>None\<close> when the file was written and \<open>Some cause\<close>
  when it raised an exception with that message. The result of \<open>export\<close> is the
  exception that leaves it, or the lines it printed when it returns.
\<close>

definition ends_with_mid :: "string \<Rightarrow> bool" where
  "ends_with_mid output_filepath \<longleftrightarrow>
     drop (length output_filepath - 4) (lower output_filepath) = ''.mid''"

definition output_path :: "string \<Rightarrow> string" where
  "output_path output_filepath =
     (if ends_with_mid output_filepath then output_filepath else output_filepath @ ''.mid'')"

definition export ::
  "(string \<Rightarrow> MidiFile \<Rightarrow> string option) \<Rightarrow> MidiExporter \<Rightarrow> Composition \<Rightarrow> string
     \<Rightarrow> error + printed list" where
  "export save ex c output_filepath =
     (let warned = (if ends_with_mid output_filepath then []
                    else [Warning_appending_mid output_filepath])
      in case build_midi_file ex c of
           Inl e \<Rightarrow> Inl e
         | Inr midi_file \<Rightarrow>
             (case save (output_path output_filepath) midi_file of
                None \<Rightarrow> Inr (warned @ [MIDI_file_saved_to (output_path output_filepath)])
              | Some cause \<Rightarrow> Inr (warned @ [Error_saving_MIDI_file cause])))"

text \<open>A \<open>save\<close> that fails on every call, as on a full disk.\<close>

definition failing_save :: "string \<Rightarrow> MidiFile \<Rightarrow> string option" where
  "failing_save path midi_file = Some ''No space left on device''"

section \<open>polyrhythm\_harmony\_generator.py: polyrhythm onsets\<close>

text \<open>
  \<open>generate_polyrhythm_onsets(rhythms, cycle_duration_beats)\<close>: for every positive
  \<open>num_hits\<close> the values \<open>round(i * step_duration, 5)\<close> for \<open>i\<close> in
  \<open>range(num_hits)\<close>, with \<open>step_duration = cycle_duration_beats / num_hits\<close>, are
  added to a set, and the set is returned as a sorted list.
\<close>

definition onset :: "rat \<Rightarrow> int \<Rightarrow> rat" where
  "onset step_duration i = round_ndigits (int_mul_float i step_duration) 5"

definition hit_onsets :: "rat \<Rightarrow> int \<Rightarrow> rat list" where
  "hit_onsets cycle_duration_beats num_hits =
     (if num_hits \<le> 0 then []
      else map (onset (float_truediv_int cycle_duration_beats num_hits)) [0 .. num_hits - 1])"

definition generate_polyrhythm_onsets :: "int list \<Rightarrow> rat \<Rightarrow> rat list" where
  "generate_polyrhythm_onsets rhythms cycle_duration_beats =
     sort (remdups (concat (map (hit_onsets cycle_duration_beats) rhythms)))"

section \<open>Example values\<close>

text \<open>Two notes of pitch 60, back to back, and a track and a composition to hold them.\<close>

definition note_a :: Note where
  "note_a = \<lparr>pitch = 60, start_time = 0, duration = 1, velocity = 100\<rparr>"

definition note_b :: Note where
  "note_b = \<lparr>pitch = 60, start_time = 1, duration = 1, velocity = 100\<rparr>"

definition lead_track :: "element list \<Rightarrow> Track" where
  "lead_track es = \<lparr>name = ''Lead'', instrument_program = 0, channel = 0, elements = es,
                     pan = 64, volume = 100\<rparr>"

definition song :: "Track list \<Rightarrow> Composition" where
  "song ts = \<lparr>title = ''Song'', tracks = ts, tempo = 120, time_signature = (4, 4)\<rparr>"

section \<open>Chord pitches and scale notes: results\<close>

text \<open>
  C1. For the chord symbol "Cmaj" with base octave 4, octave offset 0 and inversion 0 the
  code returns the pitches 48, 52, 55, and with inversion 1 the pitches 52, 55, 60: the
  root pitch is \<open>0 + (4 + 0) * 12 = 48\<close>, an octave below the 60 that the function's
  docstring example and the specification expect.
\<close>

theorem get_chord_pitches_Cmaj:
  "get_chord_pitches ''Cmaj'' 4 0 0 = Inr [48, 52, 55] \<and>
   get_chord_pitches ''Cmaj'' 4 0 1 = Inr [52, 55, 60] \<and>
   get_chord_pitches ''Cmaj'' 4 0 0 \<noteq> Inr [60, 64, 67] \<and>
   get_chord_pitches ''Cmaj'' 4 0 1 \<noteq> Inr [64, 67, 72]"
  by (simp add: get_chord_pitches_def parse_root_def PITCH_MAP_def CHORD_VOICINGS_def
      dict_get_def)

text \<open>
  C5. For root C, the major scale and the octave range (10, 10) the code returns the
  pitches 129 and 131, which lie outside 0..127; nothing is discarded.
\<close>

theorem get_scale_notes_keeps_out_of_range:
  "get_scale_notes ''C'' ''major'' (10, 10) = Inr [120, 122, 124, 125, 127, 129, 131] \<and>
   scaleNotes_spec ''C'' ''major'' (10, 10) = Inr [120, 122, 124, 125, 127]"
  by (simp add: get_scale_notes_def scaleNotes_spec_def dict_get_def PITCH_MAP_def SCALES_def
      upper_def upper_char_def)

section \<open>Track insertion\<close>

lemma list_sort_key_numeric:
  assumes "\<forall>x\<in>set xs. f x \<noteq> None"
  shows "list_sort_key f xs = Inr (sort_key (\<lambda>x. the (f x)) xs)"
proof (cases "length xs < 2")
  case True
  then have "xs = [] \<or> (\<exists>x. xs = [x])"
    by (cases xs) (auto simp: length_Suc_conv)
  then show ?thesis using True by (auto simp: list_sort_key_def)
next
  case False
  then show ?thesis using assms by (auto simp: list_sort_key_def list_ex_iff)
qed

lemma list_sort_key_None:
  assumes "2 \<le> length xs" and "x \<in> set xs" and "f x = None"
  shows "list_sort_key f xs = Inl TypeError"
  using assms by (auto simp: list_sort_key_def list_ex_iff)

lemma add_element_numeric:
  assumes "\<forall>x\<in>set (elements t). element_start_time x \<noteq> None"
    and "element_start_time element \<noteq> None"
  shows "add_element t element =
           Inr (t\<lparr>elements := sort_key (\<lambda>x. the (element_start_time x)) (elements t @ [element])\<rparr>)"
proof -
  have "\<forall>x\<in>set (elements t @ [element]). element_start_time x \<noteq> None"
    using assms by auto
  then have "list_sort_key element_start_time (elements t @ [element]) =
      Inr (sort_key (\<lambda>x. the (element_start_time x)) (elements t @ [element]))"
    by (rule list_sort_key_numeric)
  then show ?thesis by (simp add: add_element_def Let_def)
qed

lemma add_elements_numeric:
  assumes "\<forall>x\<in>set (elements t). element_start_time x \<noteq> None"
    and "\<forall>x\<in>set es. element_start_time x \<noteq> None"
  shows "\<exists>t'. add_elements t es = Inr t' \<and>
           (es \<noteq> [] \<longrightarrow> sorted (map (\<lambda>x. the (element_start_time x)) (elements t'))) \<and>
           mset (elements t') = mset (elements t) + mset es \<and>
           t' = t\<lparr>elements := elements t'\<rparr>"
  using assms
proof (induction es arbitrary: t)
  case Nil
  then show ?case by simp
next
  case (Cons e es)
  let ?t1 = "t\<lparr>elements := sort_key (\<lambda>x. the (element_start_time x)) (elements t @ [e])\<rparr>"
  have s: "add_element t e = Inr ?t1"
    using Cons.prems by (intro add_element_numeric) auto
  have n1: "\<forall>x\<in>set (elements ?t1). element_start_time x \<noteq> None"
    using Cons.prems by auto
  have n2: "\<forall>x\<in>set es. element_start_time x \<noteq> None" using Cons.prems by auto
  from Cons.IH[OF n1 n2] obtain t' where
    t': "add_elements ?t1 es = Inr t'"
    "es \<noteq> [] \<longrightarrow> sorted (map (\<lambda>x. the (element_start_time x)) (elements t'))"
    "mset (elements t') = mset (elements ?t1) + mset es"
    "t' = ?t1\<lparr>elements := elements t'\<rparr>"
    by blast
  have srt: "sorted (map (\<lambda>x. the (element_start_time x)) (elements t'))"
  proof (cases "es = []")
    case True
    then have "t' = ?t1" using t'(1) by simp
    then show ?thesis by simp
  next
    case False
    then show ?thesis using t'(2) by simp
  qed
  have "add_elements t (e # es) = Inr t'" using s t'(1) by simp
  moreover have "mset (elements t') = mset (elements t) + mset (e # es)" using t'(3) by simp
  moreover have "t' = t\<lparr>elements := elements t'\<rparr>" using t'(4) by simp
  ultimately show ?case using srt by blast
qed

lemma add_element_returns_numeric:
  assumes "add_element t element = Inr t'" and "2 \<le> length (elements t')"
  shows "\<forall>x\<in>set (elements t'). element_start_time x \<noteq> None"
  using assms
  by (auto simp: add_element_def Let_def list_sort_key_def list_ex_iff split: if_splits)

text \<open>
  C9. For every track whose elements have a numeric start time and every element with a
  numeric start time, \<open>add_element\<close> returns normally, and the elements of the track
  are then sorted ascending by start time and are the former elements plus the new one; the
  other fields of the track are unchanged. The track before the call need not be sorted, so
  the invariant is re-established by each single call. Hence for every sequence of such
  elements, in any order, all the calls return normally and the track is sorted after the
  last of them, which for the prefixes of the sequence is: after every insertion.
\<close>

theorem add_element_keeps_sorted:
  assumes "\<forall>x\<in>set (elements t). element_start_time x \<noteq> None"
    and "element_start_time element \<noteq> None"
    and "\<forall>x\<in>set es. element_start_time x \<noteq> None"
  shows "(\<exists>t'. add_element t element = Inr t' \<and>
            sorted (map (\<lambda>x. the (element_start_time x)) (elements t')) \<and>
            mset (elements t') = mset (elements t) + {#element#} \<and>
            t' = t\<lparr>elements := elements t'\<rparr>) \<and>
         (\<exists>t'. add_elements t es = Inr t' \<and>
            (es \<noteq> [] \<longrightarrow> sorted (map (\<lambda>x. the (element_start_time x)) (elements t'))) \<and>
            mset (elements t') = mset (elements t) + mset es \<and>
            t' = t\<lparr>elements := elements t'\<rparr>)"
proof
  show "\<exists>t'. add_element t element = Inr t' \<and>
            sorted (map (\<lambda>x. the (element_start_time x)) (elements t')) \<and>
            mset (elements t') = mset (elements t) + {#element#} \<and>
            t' = t\<lparr>elements := elements t'\<rparr>"
    using add_element_numeric[OF assms(1,2)] by simp
  show "\<exists>t'. add_elements t es = Inr t' \<and>
            (es \<noteq> [] \<longrightarrow> sorted (map (\<lambda>x. the (element_start_time x)) (elements t'))) \<and>
            mset (elements t') = mset (elements t) + mset es \<and>
            t' = t\<lparr>elements := elements t'\<rparr>"
    by (rule add_elements_numeric[OF assms(1,3)])
qed

theorem add_element_keeps_sorted_witness:
  "add_element (lead_track [ENote note_b]) (ENote note_a)
     = Inr (lead_track [ENote note_a, ENote note_b]) \<and>
   add_elements (lead_track []) [ENote note_b, ENote note_a]
     = Inr (lead_track [ENote note_a, ENote note_b])"
  using add_element_keeps_sorted[of "lead_track [ENote note_b]" "ENote note_a" "[]"]
    add_element_keeps_sorted[of "lead_track []" "ENote note_a" "[ENote note_b, ENote note_a]"]
  by (simp add: lead_track_def note_a_def note_b_def add_element_def Let_def list_sort_key_def)

text \<open>
  C10, as stated, fails in its last part: the call that adds a chord without notes to a
  track holding one note raises TypeError, and the track it leaves holds the note and the
  chord side by side.
\<close>

theorem add_element_empty_chord_counterexample:
  "add_element (lead_track [ENote note_a]) (EChord (Chord_init []))
     = Inl (TypeError, lead_track [ENote note_a, EChord (Chord_init [])])"
  by (simp add: lead_track_def Chord_init_def note_a_def add_element_def Let_def
      list_sort_key_def Chord_start_time_def)

text \<open>
  C10, amended. A chord without notes has start time \<open>None\<close>, and for every track that
  already holds at least one element, \<open>add_element\<close> raises TypeError when the new
  element is such a chord, and also when such a chord is already among the track's
  elements. The failed call leaves the new element in the track: its elements are then the
  former ones plus the new one, at least two, the chord among them, and the other fields
  are unchanged. Only a call that returns normally never gives a track in which such a
  chord stands with another element.
\<close>

theorem add_element_empty_chord_raises:
  assumes "elements t \<noteq> []"
    and "chord_notes c = []"
    and "element = EChord c \<or> EChord c \<in> set (elements t)"
  shows "Chord_start_time c = None \<and>
         (\<exists>t'. add_element t element = Inl (TypeError, t') \<and>
            mset (elements t') = mset (elements t) + {#element#} \<and>
            EChord c \<in> set (elements t') \<and>
            2 \<le> length (elements t') \<and>
            t' = t\<lparr>elements := elements t'\<rparr>) \<and>
         (\<forall>t0 e0 t1. add_element t0 e0 = Inr t1 \<and> 2 \<le> length (elements t1)
            \<longrightarrow> EChord c \<notin> set (elements t1))"
proof (intro conjI allI impI)
  show n: "Chord_start_time c = None" using assms(2) by (simp add: Chord_start_time_def)
  have len: "2 \<le> length (elements t @ [element])"
    using assms(1) by (cases "elements t") auto
  have mem: "EChord c \<in> set (elements t @ [element])" using assms(3) by auto
  moreover have none: "element_start_time (EChord c) = None" using n by simp
  ultimately have "list_sort_key element_start_time (elements t @ [element]) = Inl TypeError"
    using len by (rule list_sort_key_None[rotated])
  then have "add_element t element = Inl (TypeError, t\<lparr>elements := elements t @ [element]\<rparr>)"
    by (simp add: add_element_def Let_def)
  then show "\<exists>t'. add_element t element = Inl (TypeError, t') \<and>
            mset (elements t') = mset (elements t) + {#element#} \<and>
            EChord c \<in> set (elements t') \<and>
            2 \<le> length (elements t') \<and>
            t' = t\<lparr>elements := elements t'\<rparr>"
    using len mem by simp
  fix t0 e0 t1
  assume r: "add_element t0 e0 = Inr t1 \<and> 2 \<le> length (elements t1)"
  then have "\<forall>x\<in>set (elements t1). element_start_time x \<noteq> None"
    using add_element_returns_numeric by blast
  then show "EChord c \<notin> set (elements t1)" using none by blast
qed

theorem add_element_empty_chord_raises_witness:
  "add_element (lead_track [EChord (Chord_init [])]) (ENote note_a)
     = Inl (TypeError, lead_track [EChord (Chord_init []), ENote note_a]) \<and>
   add_element (lead_track [ENote note_a, ENote note_b]) (EChord (Chord_init []))
     = Inl (TypeError, lead_track [ENote note_a, ENote note_b, EChord (Chord_init [])])"
  using add_element_empty_chord_raises[of "lead_track [EChord (Chord_init [])]" "Chord_init []"
      "ENote note_a"]
    add_element_empty_chord_raises[of "lead_track [ENote note_a, ENote note_b]" "Chord_init []"
      "EChord (Chord_init [])"]
  by (simp add: lead_track_def Chord_init_def note_a_def note_b_def add_element_def Let_def
      list_sort_key_def Chord_start_time_def)

section \<open>Export: errors\<close>

lemma element_events_error:
  "element_events tpb ch e = Inl err \<Longrightarrow> err = TypeError"
  by (auto simp: element_events_def Let_def split: option.splits element.splits prod.splits)

lemma element_events_None:
  "element_start_time e = None \<Longrightarrow> element_events tpb ch e = Inl TypeError"
  by (simp add: element_events_def)

lemma collect_events_error:
  "collect_events tpb ch es = Inl err \<Longrightarrow> err = TypeError"
  by (induction es arbitrary: err) (auto split: sum.splits dest: element_events_error)

lemma collect_events_None:
  "e \<in> set es \<Longrightarrow> element_start_time e = None \<Longrightarrow> collect_events tpb ch es = Inl TypeError"
proof (induction es)
  case Nil
  then show ?case by simp
next
  case (Cons a es)
  show ?case
  proof (cases "element_events tpb ch a")
    case (Inl err)
    then show ?thesis using element_events_error[OF Inl] by simp
  next
    case (Inr evs)
    then have "a \<noteq> e" using Cons.prems(2) element_events_None[of a tpb ch] by auto
    then have "collect_events tpb ch es = Inl TypeError" using Cons by auto
    then show ?thesis using Inr by simp
  qed
qed

lemma export_track_error:
  "export_track ex t = Inl err \<Longrightarrow> err = TypeError"
  by (auto simp: export_track_def emitted_events_def scheduled_events_def
      split: sum.splits dest: collect_events_error)

lemma export_track_None:
  "e \<in> set (elements t) \<Longrightarrow> element_start_time e = None \<Longrightarrow> export_track ex t = Inl TypeError"
  by (simp add: export_track_def emitted_events_def scheduled_events_def collect_events_None)

lemma export_tracks_None:
  "t \<in> set ts \<Longrightarrow> e \<in> set (elements t) \<Longrightarrow> element_start_time e = None
   \<Longrightarrow> export_tracks ex ts = Inl TypeError"
proof (induction ts)
  case Nil
  then show ?case by simp
next
  case (Cons a ts)
  show ?case
  proof (cases "export_track ex a")
    case (Inl err)
    then show ?thesis using export_track_error[OF Inl] by simp
  next
    case (Inr mt)
    then have "a \<noteq> t" using Cons.prems export_track_None[of e a ex] by auto
    then have "export_tracks ex ts = Inl TypeError" using Cons by auto
    then show ?thesis using Inr by simp
  qed
qed

text \<open>
  C3. For every composition with a track that holds a chord without notes, \<open>export\<close>
  raises TypeError, whatever the other tracks and elements are and whatever \<open>save\<close>
  would do: the chord is not dropped from a written file, no file is written.
\<close>

theorem export_rejects_empty_chord:
  assumes "t \<in> set (tracks c)" and "EChord ch \<in> set (elements t)" and "chord_notes ch = []"
  shows "export save ex c output_filepath = Inl TypeError"
proof -
  have "element_start_time (EChord ch) = None"
    using assms(3) by (simp add: Chord_start_time_def)
  then have "export_tracks ex (tracks c) = Inl TypeError"
    using assms(1,2) by (rule export_tracks_None[rotated 2])
  then show ?thesis by (simp add: export_def build_midi_file_def Let_def)
qed

theorem export_rejects_empty_chord_witness:
  "export failing_save \<lparr>ticks_per_beat = 480\<rparr> (song [lead_track [EChord (Chord_init [])]])
     ''song.mid'' = Inl TypeError"
  using export_rejects_empty_chord[of "lead_track [EChord (Chord_init [])]"
      "song [lead_track [EChord (Chord_init [])]]" "Chord_init []"]
  by (simp add: lead_track_def song_def Chord_init_def)

text \<open>
  C2, as stated, fails: with a \<open>save\<close> that raises, \<open>export\<close> of a composition
  without tracks returns normally, having printed the error.
\<close>

theorem export_save_failure_counterexample:
  "export failing_save \<lparr>ticks_per_beat = 480\<rparr>
     \<lparr>title = ''Song'', tracks = [], tempo = 120, time_signature = (4, 4)\<rparr> ''song.mid''
   = Inr [Error_saving_MIDI_file ''No space left on device'']"
  by (simp add: export_def build_midi_file_def failing_save_def ends_with_mid_def output_path_def
      lower_def lower_char_def)

text \<open>
  C2, amended. For every composition that the exporter can encode, if \<open>save\<close> raises
  an exception with cause \<open>cause\<close> while the file is written, \<open>export\<close> returns
  normally and the last line it printed is "Error saving MIDI file: cause"; no exception
  reaches the caller.
\<close>

theorem export_swallows_save_failure:
  assumes "build_midi_file ex c = Inr midi_file"
    and "save (output_path output_filepath) midi_file = Some cause"
  shows "\<exists>printed. export save ex c output_filepath = Inr (printed @ [Error_saving_MIDI_file cause])"
  using assms by (simp add: export_def Let_def)

theorem export_swallows_save_failure_witness:
  "\<exists>printed. export failing_save \<lparr>ticks_per_beat = 480\<rparr> (song [lead_track [ENote note_a]])
     ''song'' = Inr (printed @ [Error_saving_MIDI_file ''No space left on device''])"
proof -
  have "\<exists>f. build_midi_file \<lparr>ticks_per_beat = 480\<rparr> (song [lead_track [ENote note_a]]) = Inr f"
    by (simp add: build_midi_file_def song_def lead_track_def export_track_def
        emitted_events_def scheduled_events_def element_events_def note_a_def)
  then obtain f where
    f: "build_midi_file \<lparr>ticks_per_beat = 480\<rparr> (song [lead_track [ENote note_a]]) = Inr f"
    by blast
  have s: "failing_save (output_path ''song'') f = Some ''No space left on device''"
    by (simp add: failing_save_def)
  show ?thesis
    using export_swallows_save_failure[of _ _ f failing_save "''song''", OF f s] .
qed

section \<open>Float rounding\<close>

lemma pow2_pos: "0 < pow2 k"
  by (simp add: pow2_def)

lemma py_round_nonneg: "0 \<le> x \<Longrightarrow> 0 \<le> py_round x"
  by (auto simp: py_round_def Let_def)

lemma py_round_of_int: "py_round (of_int k) = k"
  by (simp add: py_round_def)

lemma fl_nonneg: "0 \<le> q \<Longrightarrow> 0 \<le> fl q"
  by (auto simp: fl_def Let_def intro!: mult_nonneg_nonneg py_round_nonneg divide_nonneg_pos pow2_pos
      simp: less_imp_le[OF pow2_pos])

lemma ilog2_of_int:
  assumes "0 < k"
  shows "ilog2 (of_int k) = bitlen k - 1"
proof -
  have q: "quotient_of \<bar>rat_of_int k\<bar> = (k, 1)" using assms by simp
  have b: "0 < bitlen k" using assms by (auto simp: bitlen_alt_def)
  have "2 ^ nat (bitlen k - 1) \<le> k" using bitlen_bounds[OF assms] by simp
  then have "(2::rat) ^ nat (bitlen k - 1) \<le> of_int k"
    by (metis of_int_le_iff of_int_numeral of_int_power)
  then have "pow2 (bitlen k - 1) \<le> \<bar>rat_of_int k\<bar>"
    using b assms by (simp add: pow2_def)
  moreover have "bitlen 1 = 1" by (simp add: bitlen_alt_def)
  ultimately show ?thesis using q by (simp add: ilog2_def Let_def)
qed

lemma fl_of_int:
  assumes "0 \<le> k" and "k < 2 ^ 53"
  shows "fl (of_int k) = of_int k"
proof (cases "k = 0")
  case True
  then show ?thesis by (simp add: fl_def)
next
  case False
  then have pos: "0 < k" using assms(1) by simp
  have e: "ilog2 (of_int k) = bitlen k - 1" by (rule ilog2_of_int[OF pos])
  have b0: "0 < bitlen k" using pos by (auto simp: bitlen_alt_def)
  have "bitlen k \<le> 53"
  proof (rule ccontr)
    assume "\<not> bitlen k \<le> 53"
    then have "54 \<le> bitlen k" by simp
    then have "(2::int) ^ 53 \<le> 2 ^ nat (bitlen k - 1)"
      by (intro power_increasing) auto
    then show False using bitlen_bounds[OF pos] assms(2) by simp
  qed
  define m where "m = nat (53 - bitlen k)"
  have mx: "max (bitlen k - 53) (- 1074) = - int m"
    using b0 \<open>bitlen k \<le> 53\<close> by (simp add: m_def)
  have u: "pow2 (- int m) = 1 / 2 ^ m"
    by (cases "m = 0") (simp_all add: pow2_def)
  have "rat_of_int k / (1 / 2 ^ m) = of_int (k * 2 ^ m)" by simp
  then have r: "py_round (rat_of_int k / (1 / 2 ^ m)) = k * 2 ^ m"
    using py_round_of_int by metis
  show ?thesis
    using False by (simp add: fl_def Let_def e mx u r del: divide_divide_eq_right)
qed

text \<open>
  Two values for comparison with the runtime: the float \<open>0.1\<close>, and \<open>0.7 * 10\<close>, which
  is 7.0 although the exact product of the float \<open>0.7\<close> and 10 is below 7.
\<close>

lemma fl_examples:
  "fl (1 / 10) = 3602879701896397 / 36028797018963968"
  "fl (7 / 10) = 3152519739159347 / 4503599627370496"
  "float_mul_int (fl (7 / 10)) 10 = 7"
  "\<lfloor>fl (7 / 10) * 10\<rfloor> = 6"
  by code_simp+

lemma float_add_nonneg: "0 \<le> x \<Longrightarrow> 0 \<le> y \<Longrightarrow> 0 \<le> float_add x y"
  by (simp add: float_add_def fl_nonneg)

lemma float_mul_int_nonneg: "0 \<le> x \<Longrightarrow> 0 \<le> n \<Longrightarrow> 0 \<le> float_mul_int x n"
  by (simp add: float_mul_int_def fl_nonneg)

lemma float_mul_int_zero: "float_mul_int 0 n = 0"
  by (simp add: float_mul_int_def fl_def)

lemma float_mul_int_one: "0 \<le> n \<Longrightarrow> n < 2 ^ 53 \<Longrightarrow> float_mul_int 1 n = of_int n"
  by (simp add: float_mul_int_def fl_of_int)

lemma float_add_0_1: "float_add 0 1 = 1"
  using fl_of_int[of 1] by (simp add: float_add_def)

lemma float_add_1_1: "float_add 1 1 = 2"
  using fl_of_int[of 2] by (simp add: float_add_def)

lemma float_mul_int_two: "0 \<le> n \<Longrightarrow> n < 2 ^ 52 \<Longrightarrow> float_mul_int 2 n = of_int (2 * n)"
proof -
  assume n: "0 \<le> n" "n < 2 ^ 52"
  then have "fl (of_int n) = of_int n" by (intro fl_of_int) auto
  moreover have "fl (of_int (2 * n)) = of_int (2 * n)" using n by (intro fl_of_int) auto
  ultimately show ?thesis by (simp add: float_mul_int_def)
qed

section \<open>Export: ticks\<close>

lemma py_int_floor: "0 \<le> x \<Longrightarrow> py_int x = \<lfloor>x\<rfloor>"
  by (simp add: py_int_def)

lemma py_int_nonneg: "0 \<le> x \<Longrightarrow> 0 \<le> py_int x"
  by (simp add: py_int_def)

lemma py_int_of_int: "py_int (of_int k) = k"
  by (simp add: py_int_def)

lemma py_int_zero: "py_int 0 = 0"
  by (simp add: py_int_def)

lemma py_int_numeral: "py_int (numeral k) = numeral k"
  by (simp add: py_int_def)

lemma py_int_two_of_int: "py_int (2 * of_int k) = 2 * k"
  using py_int_of_int[of "2 * k"] by simp

lemma tick_values:
  "float_mul_int (3 / 256) 480 = 45 / 8"
  "float_mul_int (float_add (3 / 256) 1) 480 = 3885 / 8"
  "py_int (45 / 8) = 5"
  "py_int (3885 / 8) = 485"
  "py_round (45 / 8) = 6"
  "py_round (3885 / 8) = 486"
  by code_simp+

text \<open>
  C4, as stated, fails: with 480 ticks per beat, a note that starts at beat 3/256 and lasts
  one beat gets its NoteOn at tick 5 and its NoteOff at tick 485, where rounding
  the products \<open>5.625\<close> and \<open>485.625\<close> to the nearest integer gives 6 and 486.
\<close>

theorem element_events_tick_counterexample:
  "element_events 480 0 (ENote \<lparr>pitch = 60, start_time = 3 / 256, duration = 1, velocity = 100\<rparr>)
     = Inr [(5, NoteOn 60 100 0), (485, NoteOff 60 0 0)] \<and>
   py_round (float_mul_int (3 / 256) 480) = 6 \<and>
   py_round (float_mul_int (float_add (3 / 256) 1) 480) = 486"
  by (simp add: element_events_def tick_values)

text \<open>
  C4, amended. For every element built by the constructors and a non-negative number of
  ticks per beat, the absolute tick of its events is the floor of the float product of the
  beat time and the ticks per beat (\<open>int\<close> truncates), and this one rule gives the
  NoteOn tick from the start time and the NoteOff tick from start time plus duration, for a
  standalone note with its own times and for every note of a chord with the times of the
  chord, which are those of its first note.
\<close>

theorem element_events_tick_truncates:
  assumes "0 \<le> tpb" and "valid_element element"
  shows "(\<forall>n. element = ENote n \<longrightarrow>
            element_events tpb ch element =
              Inr [(\<lfloor>float_mul_int (start_time n) tpb\<rfloor>, NoteOn (pitch n) (velocity n) ch),
                   (\<lfloor>float_mul_int (float_add (start_time n) (duration n)) tpb\<rfloor>,
                    NoteOff (pitch n) 0 ch)]) \<and>
         (\<forall>c first others. element = EChord c \<and> chord_notes c = first # others \<longrightarrow>
            element_events tpb ch element =
              Inr (concat (map (\<lambda>n.
                     [(\<lfloor>float_mul_int (start_time first) tpb\<rfloor>,
                       NoteOn (pitch n) (velocity n) ch),
                      (\<lfloor>float_mul_int (float_add (start_time first) (duration first)) tpb\<rfloor>,
                       NoteOff (pitch n) 0 ch)])
                   (chord_notes c))))"
proof (intro conjI allI impI)
  fix n assume e: "element = ENote n"
  then have v: "valid_note n" using assms(2) by simp
  have a: "0 \<le> float_mul_int (start_time n) tpb"
    using v assms(1) by (simp add: valid_note_def float_mul_int_nonneg)
  have b: "0 \<le> float_mul_int (float_add (start_time n) (duration n)) tpb"
    using v assms(1) by (simp add: valid_note_def float_mul_int_nonneg float_add_nonneg)
  show "element_events tpb ch element =
      Inr [(\<lfloor>float_mul_int (start_time n) tpb\<rfloor>, NoteOn (pitch n) (velocity n) ch),
           (\<lfloor>float_mul_int (float_add (start_time n) (duration n)) tpb\<rfloor>,
            NoteOff (pitch n) 0 ch)]"
    using e py_int_floor[OF a] py_int_floor[OF b] by (simp add: element_events_def)
next
  fix c first others
  assume e: "element = EChord c \<and> chord_notes c = first # others"
  then have v: "valid_note first" using assms(2) by simp
  have a: "0 \<le> float_mul_int (start_time first) tpb"
    using v assms(1) by (simp add: valid_note_def float_mul_int_nonneg)
  have b: "0 \<le> float_mul_int (float_add (start_time first) (duration first)) tpb"
    using v assms(1) by (simp add: valid_note_def float_mul_int_nonneg float_add_nonneg)
  show "element_events tpb ch element =
      Inr (concat (map (\<lambda>n.
             [(\<lfloor>float_mul_int (start_time first) tpb\<rfloor>, NoteOn (pitch n) (velocity n) ch),
              (\<lfloor>float_mul_int (float_add (start_time first) (duration first)) tpb\<rfloor>,
               NoteOff (pitch n) 0 ch)])
           (chord_notes c)))"
    using e py_int_floor[OF a] py_int_floor[OF b]
    by (simp add: element_events_def Chord_start_time_def Chord_duration_def Let_def)
qed

theorem element_events_tick_truncates_witness:
  "element_events 480 0 (ENote \<lparr>pitch = 60, start_time = 3 / 256, duration = 1, velocity = 100\<rparr>)
     = Inr [(\<lfloor>float_mul_int (3 / 256) 480\<rfloor>, NoteOn 60 100 0),
            (\<lfloor>float_mul_int (float_add (3 / 256) 1) 480\<rfloor>, NoteOff 60 0 0)]"
  using element_events_tick_truncates[of 480
      "ENote \<lparr>pitch = 60, start_time = 3 / 256, duration = 1, velocity = 100\<rparr>" 0]
  by (simp add: valid_note_def)

section \<open>Export: event order and delta times\<close>

lemma event_key_le:
  "event_key a \<le> event_key b \<longleftrightarrow>
     fst a < fst b \<or> (fst a = fst b \<and> (is_note_off (snd b) \<longrightarrow> is_note_off (snd a)))"
  by (auto simp: event_key_def less_eq_prod_def)

lemma sorted_event_key_fst:
  "sorted (map event_key xs) \<Longrightarrow> sorted (map fst xs)"
  unfolding sorted_map
  by (rule sorted_wrt_mono_rel[rotated], assumption) (auto simp: event_key_le)

lemma scheduled_events_Inr:
  "scheduled_events ex t = Inr evs \<longleftrightarrow>
     (\<exists>events. collect_events (ticks_per_beat ex) (channel t) (elements t) = Inr events \<and>
        evs = sort_key event_key events)"
  by (auto simp: scheduled_events_def split: sum.splits)

text \<open>
  C6. For every track that the exporter can schedule, the sorted event stream holds exactly
  the collected events, its ticks ascend, and of two events at the same tick a NoteOff never
  comes after an event that is not a NoteOff. In particular, for a positive number of ticks
  per beat (below \<open>2^52\<close>, so that the ticks are exact), two notes of pitch 60 at (start 0, duration 1) and (start 1, duration 1), in
  either order in the track, give NoteOn at 0, then NoteOff(60) at the tick of beat 1
  immediately before NoteOn(60) at the same tick, then NoteOff at the tick of beat 2.
\<close>

theorem scheduled_events_sorted_note_off_first:
  "(scheduled_events ex t = Inr evs \<longrightarrow>
      (\<exists>events. collect_events (ticks_per_beat ex) (channel t) (elements t) = Inr events \<and>
         mset evs = mset events) \<and>
      (\<forall>i j. i < j \<and> j < length evs \<longrightarrow>
         fst (evs ! i) \<le> fst (evs ! j) \<and>
         (fst (evs ! i) = fst (evs ! j) \<and> is_note_off (snd (evs ! j))
            \<longrightarrow> is_note_off (snd (evs ! i))))) \<and>
   (0 < ticks_per_beat ex \<and> ticks_per_beat ex < 2 ^ 52 \<and>
    n1 = \<lparr>pitch = 60, start_time = 0, duration = 1, velocity = v1\<rparr> \<and>
    n2 = \<lparr>pitch = 60, start_time = 1, duration = 1, velocity = v2\<rparr> \<and>
    (elements t = [ENote n1, ENote n2] \<or> elements t = [ENote n2, ENote n1]) \<longrightarrow>
      scheduled_events ex t =
        Inr [(0, NoteOn 60 v1 (channel t)),
             (ticks_per_beat ex, NoteOff 60 0 (channel t)),
             (ticks_per_beat ex, NoteOn 60 v2 (channel t)),
             (2 * ticks_per_beat ex, NoteOff 60 0 (channel t))])"
proof (intro conjI impI)
  assume a: "scheduled_events ex t = Inr evs"
  then obtain events where
    ev: "collect_events (ticks_per_beat ex) (channel t) (elements t) = Inr events"
    and s: "evs = sort_key event_key events"
    unfolding scheduled_events_Inr by blast
  show "\<exists>events. collect_events (ticks_per_beat ex) (channel t) (elements t) = Inr events \<and>
         mset evs = mset events"
    using ev s by simp
  have srt: "sorted (map event_key evs)" using s by simp
  show "\<forall>i j. i < j \<and> j < length evs \<longrightarrow>
         fst (evs ! i) \<le> fst (evs ! j) \<and>
         (fst (evs ! i) = fst (evs ! j) \<and> is_note_off (snd (evs ! j))
            \<longrightarrow> is_note_off (snd (evs ! i)))"
  proof (intro allI impI)
    fix i j assume ij: "i < j \<and> j < length evs"
    then have "map event_key evs ! i \<le> map event_key evs ! j"
      using srt by (intro sorted_nth_mono) auto
    then have "event_key (evs ! i) \<le> event_key (evs ! j)" using ij by simp
    then show "fst (evs ! i) \<le> fst (evs ! j) \<and>
         (fst (evs ! i) = fst (evs ! j) \<and> is_note_off (snd (evs ! j))
            \<longrightarrow> is_note_off (snd (evs ! i)))"
      unfolding event_key_le by auto
  qed
next
  assume h: "0 < ticks_per_beat ex \<and> ticks_per_beat ex < 2 ^ 52 \<and>
    n1 = \<lparr>pitch = 60, start_time = 0, duration = 1, velocity = v1\<rparr> \<and>
    n2 = \<lparr>pitch = 60, start_time = 1, duration = 1, velocity = v2\<rparr> \<and>
    (elements t = [ENote n1, ENote n2] \<or> elements t = [ENote n2, ENote n1])"
  then show "scheduled_events ex t =
        Inr [(0, NoteOn 60 v1 (channel t)),
             (ticks_per_beat ex, NoteOff 60 0 (channel t)),
             (ticks_per_beat ex, NoteOn 60 v2 (channel t)),
             (2 * ticks_per_beat ex, NoteOff 60 0 (channel t))]"
    by (auto simp: scheduled_events_def element_events_def float_mul_int_zero float_mul_int_one
        float_mul_int_two float_add_0_1 float_add_1_1 py_int_of_int py_int_zero
        py_int_two_of_int event_key_def less_eq_prod_def)
qed

theorem scheduled_events_sorted_note_off_first_witness:
  "scheduled_events \<lparr>ticks_per_beat = 480\<rparr> (lead_track [ENote note_a, ENote note_b]) =
     Inr [(0, NoteOn 60 100 0), (480, NoteOff 60 0 0), (480, NoteOn 60 100 0),
          (960, NoteOff 60 0 0)]"
  using scheduled_events_sorted_note_off_first[of "\<lparr>ticks_per_beat = 480\<rparr>"
      "lead_track [ENote note_a, ENote note_b]"
      "[(0, NoteOn 60 100 0), (480, NoteOff 60 0 0), (480, NoteOn 60 100 0),
        (960, NoteOff 60 0 0)]" note_a 100 note_b 100]
  by (simp add: lead_track_def note_a_def note_b_def)

lemma to_delta_length: "length (to_delta l evs) = length evs"
  by (induction evs arbitrary: l) auto

lemma to_delta_nth:
  "i < length evs \<Longrightarrow>
   to_delta l evs ! i = (fst (evs ! i) - (if i = 0 then l else fst (evs ! (i - 1))), snd (evs ! i))"
proof (induction evs arbitrary: l i)
  case Nil
  then show ?case by simp
next
  case (Cons a evs)
  obtain tick msg where a: "a = (tick, msg)" by (cases a)
  show ?case
  proof (cases i)
    case 0
    then show ?thesis using a by simp
  next
    case (Suc k)
    then have "k < length evs" using Cons.prems by simp
    from Cons.IH[OF this, of tick] show ?thesis using Suc a by (cases k) auto
  qed
qed

lemma element_events_ok:
  "element_start_time e \<noteq> None \<Longrightarrow> \<exists>evs. element_events tpb ch e = Inr evs"
  by (cases e)
     (auto simp: element_events_def Let_def Chord_start_time_def Chord_duration_def
       split: list.splits)

lemma collect_events_ok:
  "\<forall>e\<in>set es. element_start_time e \<noteq> None \<Longrightarrow> \<exists>evs. collect_events tpb ch es = Inr evs"
proof (induction es)
  case Nil
  then show ?case by simp
next
  case (Cons a es)
  then obtain x y where "element_events tpb ch a = Inr x" "collect_events tpb ch es = Inr y"
    using element_events_ok[of a tpb ch] by auto
  then show ?case by simp
qed

lemma element_events_nonneg:
  assumes "0 \<le> tpb" and "valid_element e" and "element_events tpb ch e = Inr evs"
  shows "\<forall>x\<in>set evs. 0 \<le> fst x"
proof (cases e)
  case (ENote n)
  then have "0 \<le> float_mul_int (start_time n) tpb"
    "0 \<le> float_mul_int (float_add (start_time n) (duration n)) tpb"
    using assms(1,2) by (simp_all add: valid_note_def float_mul_int_nonneg float_add_nonneg)
  then show ?thesis using assms(3) ENote
    by (auto simp: element_events_def Let_def intro: py_int_nonneg)
next
  case (EChord c)
  show ?thesis
  proof (cases "chord_notes c")
    case Nil
    then show ?thesis using assms(3) EChord
      by (simp add: element_events_def Chord_start_time_def)
  next
    case (Cons first others)
    then have "valid_note first" using assms(2) EChord by simp
    then have "0 \<le> float_mul_int (start_time first) tpb"
      "0 \<le> float_mul_int (float_add (start_time first) (duration first)) tpb"
      using assms(1) by (simp_all add: valid_note_def float_mul_int_nonneg float_add_nonneg)
    then have "0 \<le> py_int (float_mul_int (start_time first) tpb)"
      "0 \<le> py_int (float_mul_int (float_add (start_time first) (duration first)) tpb)"
      by (simp_all add: py_int_nonneg)
    then show ?thesis using assms(3) EChord Cons
      by (auto simp: element_events_def Let_def Chord_start_time_def Chord_duration_def)
  qed
next
  case (ERest r)
  then show ?thesis using assms(3) by (auto simp: element_events_def)
qed

lemma collect_events_nonneg:
  "0 \<le> tpb \<Longrightarrow> \<forall>e\<in>set es. valid_element e \<Longrightarrow> collect_events tpb ch es = Inr evs
   \<Longrightarrow> \<forall>x\<in>set evs. 0 \<le> fst x"
proof (induction es arbitrary: evs)
  case Nil
  then show ?case by simp
next
  case (Cons a es)
  from Cons.prems(3) obtain x y where
    x: "element_events tpb ch a = Inr x" and y: "collect_events tpb ch es = Inr y"
    and e: "evs = x @ y"
    by (auto split: sum.splits)
  have "\<forall>z\<in>set x. 0 \<le> fst z"
    using element_events_nonneg[OF Cons.prems(1) _ x] Cons.prems(2) by simp
  moreover have "\<forall>z\<in>set y. 0 \<le> fst z"
    using Cons.IH[OF Cons.prems(1) _ y] Cons.prems(2) by simp
  ultimately show ?case using e by auto
qed

lemma negative_tick_values:
  "float_mul_int (3 / 256) (- 480) = - (45 / 8)"
  "float_mul_int (float_add (3 / 256) 1) (- 480) = - (3885 / 8)"
  "py_int (- (45 / 8)) = - 5"
  "py_int (- (3885 / 8)) = - 485"
  by code_simp+

text \<open>
  C7, as stated, fails for an exporter with a negative number of ticks per beat, which the
  exporter accepts: with -480 ticks per beat, a note that starts at beat 3/256 and lasts one
  beat has its NoteOff at tick -485 and its NoteOn at tick -5, so the first emitted delta
  is -485.
\<close>

theorem emitted_deltas_counterexample:
  "emitted_events \<lparr>ticks_per_beat = - 480\<rparr>
     (lead_track [ENote \<lparr>pitch = 60, start_time = 3 / 256, duration = 1, velocity = 100\<rparr>])
   = Inr [(- 485, NoteOff 60 0 0), (480, NoteOn 60 100 0)]"
  by (simp add: emitted_events_def scheduled_events_def lead_track_def element_events_def
      negative_tick_values event_key_def less_eq_prod_def)

text \<open>
  C7, amended. For an exporter whose number of ticks per beat is not negative and every
  track whose elements all have a start time that is at least 0, with the elements as the
  constructors build them, the exporter schedules the track, and each emitted message
  carries as its time the absolute tick of its event minus the absolute tick of the event
  before it, the first one its own absolute tick, and no such delta is negative.
\<close>

theorem emitted_deltas:
  assumes "0 \<le> ticks_per_beat ex"
    and "\<forall>e\<in>set (elements t). \<exists>s. element_start_time e = Some s \<and> 0 \<le> s"
    and "\<forall>e\<in>set (elements t). valid_element e"
  shows "\<exists>evs out. scheduled_events ex t = Inr evs \<and> emitted_events ex t = Inr out \<and>
           length out = length evs \<and>
           (\<forall>i<length evs.
              snd (out ! i) = snd (evs ! i) \<and>
              fst (out ! i) = fst (evs ! i) - (if i = 0 then 0 else fst (evs ! (i - 1))) \<and>
              0 \<le> fst (out ! i))"
proof -
  have "\<forall>e\<in>set (elements t). element_start_time e \<noteq> None" using assms(2) by auto
  then obtain events where
    ev: "collect_events (ticks_per_beat ex) (channel t) (elements t) = Inr events"
    using collect_events_ok by blast
  define evs where "evs = sort_key event_key events"
  have sch: "scheduled_events ex t = Inr evs" using ev by (simp add: scheduled_events_def evs_def)
  have em: "emitted_events ex t = Inr (to_delta 0 evs)" using sch by (simp add: emitted_events_def)
  have nonneg: "\<forall>x\<in>set evs. 0 \<le> fst x"
    using collect_events_nonneg[OF assms(1,3) ev] by (simp add: evs_def)
  have srt: "sorted (map fst evs)"
    by (rule sorted_event_key_fst) (simp add: evs_def)
  have "\<forall>i<length evs.
          snd (to_delta 0 evs ! i) = snd (evs ! i) \<and>
          fst (to_delta 0 evs ! i) = fst (evs ! i) - (if i = 0 then 0 else fst (evs ! (i - 1))) \<and>
          0 \<le> fst (to_delta 0 evs ! i)"
  proof (intro allI impI)
    fix i assume i: "i < length evs"
    have d: "to_delta 0 evs ! i =
        (fst (evs ! i) - (if i = 0 then 0 else fst (evs ! (i - 1))), snd (evs ! i))"
      using to_delta_nth[OF i] .
    have "0 \<le> fst (evs ! i) - (if i = 0 then 0 else fst (evs ! (i - 1)))"
    proof (cases "i = 0")
      case True
      then show ?thesis using nonneg i by simp
    next
      case False
      then have "map fst evs ! (i - 1) \<le> map fst evs ! i"
        using srt i by (intro sorted_nth_mono) auto
      then show ?thesis using False i by simp
    qed
    then show "snd (to_delta 0 evs ! i) = snd (evs ! i) \<and>
          fst (to_delta 0 evs ! i) = fst (evs ! i) - (if i = 0 then 0 else fst (evs ! (i - 1))) \<and>
          0 \<le> fst (to_delta 0 evs ! i)"
      using d by simp
  qed
  then show ?thesis using sch em to_delta_length by blast
qed

theorem emitted_deltas_witness:
  "emitted_events \<lparr>ticks_per_beat = 480\<rparr> (lead_track [ENote note_a, ENote note_b]) =
     Inr [(0, NoteOn 60 100 0), (480, NoteOff 60 0 0), (0, NoteOn 60 100 0),
          (480, NoteOff 60 0 0)]"
proof -
  have sch: "scheduled_events \<lparr>ticks_per_beat = 480\<rparr> (lead_track [ENote note_a, ENote note_b]) =
     Inr [(0, NoteOn 60 100 0), (480, NoteOff 60 0 0), (480, NoteOn 60 100 0),
          (960, NoteOff 60 0 0)]"
    using float_mul_int_one[of 480] float_mul_int_two[of 480]
    by (simp add: scheduled_events_def lead_track_def note_a_def note_b_def element_events_def
        float_mul_int_zero float_add_0_1 float_add_1_1 py_int_numeral py_int_zero
        event_key_def less_eq_prod_def)
  have h1: "0 \<le> ticks_per_beat \<lparr>ticks_per_beat = 480\<rparr>" by simp
  have h2: "\<forall>e\<in>set (elements (lead_track [ENote note_a, ENote note_b])).
              \<exists>s. element_start_time e = Some s \<and> 0 \<le> s"
    by (simp add: lead_track_def note_a_def note_b_def)
  have h3: "\<forall>e\<in>set (elements (lead_track [ENote note_a, ENote note_b])). valid_element e"
    by (simp add: lead_track_def note_a_def note_b_def valid_note_def)
  from emitted_deltas[OF h1 h2 h3] obtain evs out where
    a: "scheduled_events \<lparr>ticks_per_beat = 480\<rparr> (lead_track [ENote note_a, ENote note_b]) = Inr evs"
    and b: "emitted_events \<lparr>ticks_per_beat = 480\<rparr> (lead_track [ENote note_a, ENote note_b]) = Inr out"
    and c: "length out = length evs"
    and d: "\<forall>i<length evs.
              snd (out ! i) = snd (evs ! i) \<and>
              fst (out ! i) = fst (evs ! i) - (if i = 0 then 0 else fst (evs ! (i - 1))) \<and>
              0 \<le> fst (out ! i)"
    by blast
  have evs: "evs = [(0, NoteOn 60 100 0), (480, NoteOff 60 0 0), (480, NoteOn 60 100 0),
          (960, NoteOff 60 0 0)]"
    using a sch by simp
  have len: "length out = 4" using c evs by simp
  have "out ! 0 = (0, NoteOn 60 100 0)" "out ! 1 = (480, NoteOff 60 0 0)"
    "out ! 2 = (0, NoteOn 60 100 0)" "out ! 3 = (480, NoteOff 60 0 0)"
    using d evs by (auto simp: prod_eq_iff)
  then have "out = [(0, NoteOn 60 100 0), (480, NoteOff 60 0 0), (0, NoteOn 60 100 0),
          (480, NoteOff 60 0 0)]"
    using len by (intro nth_equalityI) (auto simp: less_Suc_eq numeral_eq_Suc)
  then show ?thesis using b by simp
qed

section \<open>Polyrhythm onsets\<close>

lemma float_literals:
  "fl (133333 / 100000) = 6004784491161903 / 4503599627370496"
  "fl (266667 / 100000) = 750600876145005 / 281474976710656"
  by code_simp+

lemma hit_onsets_4:
  "hit_onsets 4 3 = [0, 6004784491161903 / 4503599627370496, 750600876145005 / 281474976710656]"
  "hit_onsets 4 2 = [0, 2]"
  by code_simp+

lemma hit_onsets_29_32:
  "hit_onsets (29 / 32) 2 = [0, 8162684252616477 / 18014398509481984]"
  "hit_onsets (29 / 32) 14 =
     [0,
      4664288062075075 / 72057594037927936,
      4664288062075075 / 36028797018963968,
      6996792381082803 / 36028797018963968,
      2332234103030085 / 9007199254740992,
      5830540221578939 / 18014398509481984,
      1749153059274427 / 4503599627370496,
      8162864396601571 / 18014398509481984,
      2332234103030085 / 4503599627370496,
      5247504213819555 / 9007199254740992,
      5830540221578939 / 9007199254740992,
      6413576229338323 / 9007199254740992,
      6996702309090255 / 9007199254740992,
      947467289606205 / 1125899906842624]"
  by code_simp+

lemma float_literals_29_32:
  "map fl [0, 6473 / 100000, 12946 / 100000, 19420 / 100000, 25893 / 100000, 32366 / 100000,
           38839 / 100000, 45312 / 100000, 45313 / 100000, 51786 / 100000, 58259 / 100000,
           64732 / 100000, 71205 / 100000, 77679 / 100000, 84152 / 100000] =
     [0,
      4664288062075075 / 72057594037927936,
      4664288062075075 / 36028797018963968,
      6996792381082803 / 36028797018963968,
      2332234103030085 / 9007199254740992,
      5830540221578939 / 18014398509481984,
      1749153059274427 / 4503599627370496,
      8162684252616477 / 18014398509481984,
      8162864396601571 / 18014398509481984,
      2332234103030085 / 4503599627370496,
      5247504213819555 / 9007199254740992,
      5830540221578939 / 9007199254740992,
      6413576229338323 / 9007199254740992,
      6996702309090255 / 9007199254740992,
      947467289606205 / 1125899906842624]"
  by code_simp

lemma onset_7_of_14:
  "onset (float_truediv_int (29 / 32) 2) 1 = 8162684252616477 / 18014398509481984"
  "onset (float_truediv_int (29 / 32) 14) 7 = 8162864396601571 / 18014398509481984"
  by code_simp+

lemma count_list_distinct: "distinct xs \<Longrightarrow> x \<in> set xs \<Longrightarrow> count_list xs x = 1"
  by (induction xs) auto

lemma onset_zero: "onset step_duration 0 = 0"
  by (simp add: onset_def round_ndigits_def int_mul_float_def fl_def py_round_def)

lemma set_hit_onsets:
  "set (hit_onsets c n) = (if n \<le> 0 then {} else onset (float_truediv_int c n) ` {0 .. n - 1})"
  by (simp add: hit_onsets_def)

lemma set_generate_polyrhythm_onsets:
  "set (generate_polyrhythm_onsets rhythms c) =
     (\<Union>n\<in>{n \<in> set rhythms. 0 < n}. onset (float_truediv_int c n) ` {0 .. n - 1})"
  by (auto simp: generate_polyrhythm_onsets_def set_hit_onsets split: if_splits)

text \<open>
  C8, as stated, fails for onsets that coincide away from 0: for the hit counts [2, 14] over
  a cycle of 0.90625 beats the onsets of hit 1 of 2 and of hit 7 of 14 are both the middle
  of the cycle, yet the first is rounded to 0.45312 and the second, whose float product is
  one unit in the last place above 0.453125, to 0.45313; the result has 15 entries, with
  both of them, where 14 onsets are distinct.
\<close>

theorem generate_polyrhythm_onsets_counterexample:
  "generate_polyrhythm_onsets [2, 14] (29 / 32) =
     map fl [0, 6473 / 100000, 12946 / 100000, 19420 / 100000, 25893 / 100000, 32366 / 100000,
             38839 / 100000, 45312 / 100000, 45313 / 100000, 51786 / 100000, 58259 / 100000,
             64732 / 100000, 71205 / 100000, 77679 / 100000, 84152 / 100000] \<and>
   onset (float_truediv_int (29 / 32) 2) 1 = fl (45312 / 100000) \<and>
   onset (float_truediv_int (29 / 32) 14) 7 = fl (45313 / 100000) \<and>
   fl (45312 / 100000) < fl (45313 / 100000) \<and>
   (29 / 32) * 1 / 2 = (29 / 32) * 7 / (14 :: rat)"
proof -
  have a: "generate_polyrhythm_onsets [2, 14] (29 / 32) =
     map fl [0, 6473 / 100000, 12946 / 100000, 19420 / 100000, 25893 / 100000, 32366 / 100000,
             38839 / 100000, 45312 / 100000, 45313 / 100000, 51786 / 100000, 58259 / 100000,
             64732 / 100000, 71205 / 100000, 77679 / 100000, 84152 / 100000]"
    unfolding float_literals_29_32
    by (simp add: generate_polyrhythm_onsets_def hit_onsets_29_32)
  have l: "map fl [45312 / 100000, 45313 / 100000] =
      [8162684252616477 / 18014398509481984, 8162864396601571 / 18014398509481984]"
    using float_literals_29_32 by simp
  show ?thesis using a l onset_7_of_14 by simp
qed

text \<open>
  C8, amended. For the hit counts [3, 2] over a cycle of 4.0 beats the result is exactly the
  four floats 0.0, 1.33333, 2.0, 2.66667. For every list of hit counts and every cycle
  length the result holds exactly the values \<open>round(i * (cycle / n), 5)\<close> for the
  positive hit counts \<open>n\<close> and \<open>i\<close> from 0 to \<open>n - 1\<close>, it is sorted and without
  duplicates, and the onsets at 0 of all hit counts merge to a single entry.
\<close>

theorem generate_polyrhythm_onsets_rounded:
  "generate_polyrhythm_onsets [3, 2] 4 = [0, fl (133333 / 100000), 2, fl (266667 / 100000)] \<and>
   set (generate_polyrhythm_onsets rhythms c) =
     (\<Union>n\<in>{n \<in> set rhythms. 0 < n}.
        (\<lambda>i. round_ndigits (int_mul_float i (float_truediv_int c n)) 5) ` {0 .. n - 1}) \<and>
   sorted (generate_polyrhythm_onsets rhythms c) \<and>
   distinct (generate_polyrhythm_onsets rhythms c) \<and>
   ((\<exists>n\<in>set rhythms. 0 < n) \<longrightarrow> count_list (generate_polyrhythm_onsets rhythms c) 0 = 1)"
proof (intro conjI impI)
  show "generate_polyrhythm_onsets [3, 2] 4 = [0, fl (133333 / 100000), 2, fl (266667 / 100000)]"
    by (simp add: generate_polyrhythm_onsets_def hit_onsets_4 float_literals)
  have o: "onset s = (\<lambda>i. round_ndigits (int_mul_float i s) 5)" for s
    by (rule ext) (simp add: onset_def)
  show "set (generate_polyrhythm_onsets rhythms c) =
     (\<Union>n\<in>{n \<in> set rhythms. 0 < n}.
        (\<lambda>i. round_ndigits (int_mul_float i (float_truediv_int c n)) 5) ` {0 .. n - 1})"
    unfolding set_generate_polyrhythm_onsets o ..
  show "sorted (generate_polyrhythm_onsets rhythms c)"
    by (simp add: generate_polyrhythm_onsets_def)
  show d: "distinct (generate_polyrhythm_onsets rhythms c)"
    by (simp add: generate_polyrhythm_onsets_def)
  assume "\<exists>n\<in>set rhythms. 0 < n"
  then obtain n where n: "n \<in> set rhythms" "0 < n" by blast
  then have "onset (float_truediv_int c n) 0 \<in> set (generate_polyrhythm_onsets rhythms c)"
    unfolding set_generate_polyrhythm_onsets by auto
  then have "0 \<in> set (generate_polyrhythm_onsets rhythms c)" by (simp add: onset_zero)
  then show "count_list (generate_polyrhythm_onsets rhythms c) 0 = 1"
    using d by (simp add: count_list_distinct)
qed

theorem generate_polyrhythm_onsets_rounded_witness:
  "count_list (generate_polyrhythm_onsets [2, 14] (29 / 32)) 0 = 1"
  using generate_polyrhythm_onsets_rounded[of "[2, 14]" "29 / 32"] by simp

end
